theory Spec2Isabelle
  imports Main "HOL-Library.Word" "HOL-Library.AList"
begin

section \<open>Shared vocabulary\<close>

text \<open>
  Go byte slices are lists of 8-bit words, \<open>uint64\<close> is a 64-bit word (its arithmetic
  wraps), and Go's \<open>error\<close> values are a datatype: the sentinel errors the code compares
  against by identity get a constructor each, any other error carries its message.
\<close>

type_synonym bytes = "8 word list"
type_synonym u64 = "64 word"

datatype error =
    ErrKeyNotFound
  | ErrDataExpired
  | ErrNoMoreItems
  | redis_Nil
  | sql_ErrNoRows
  | Err string

text \<open>A Go panic, explicit (\<open>panic(...)\<close>) or raised by the runtime (index out of range).\<close>

datatype panic = Panic string

section \<open>The in-memory store (package store: cache and cacheIterator)\<close>

text \<open>
  \<open>cache.data\<close> and \<open>cache.lastSeen\<close> are Go maps. They are association lists with
  distinct keys here: \<open>m[k] = v\<close> is \<open>AList.update k v m\<close>, \<open>delete(m, k)\<close> is
  \<open>AList.delete k m\<close>, \<open>m[k]\<close> with the \<open>ok\<close> flag is \<open>map_of m k\<close>, and \<open>len(m)\<close> is the
  length of the list. The list order stands for the order in which the Go runtime
  enumerates the map. \<open>time.Now().Unix()\<close> is the parameter \<open>now\<close>; \<open>json.Marshal\<close> and
  \<open>json.Unmarshal\<close> are parameters of \<open>Write\<close>, \<open>Read\<close> and \<open>KV\<close>.
\<close>

record cache =
  data :: "(string \<times> bytes) list"
  lastSeen :: "(string \<times> int) list"
  timeToLive :: int

definition NewCache :: "int \<Rightarrow> cache" where
  "NewCache ttl = \<lparr>data = [], lastSeen = [], timeToLive = ttl\<rparr>"

definition Read :: "(bytes \<Rightarrow> error + 'v) \<Rightarrow> cache \<Rightarrow> int \<Rightarrow> string \<Rightarrow> error + 'v" where
  "Read unmarshal c now key =
     (case (if timeToLive c > 0
            then (case map_of (lastSeen c) key of
                    None \<Rightarrow> Some ErrKeyNotFound
                  | Some seen \<Rightarrow> if now - seen > timeToLive c then Some ErrDataExpired else None)
            else None) of
        Some e \<Rightarrow> Inl e
      | None \<Rightarrow>
          (case map_of (data c) key of
             None \<Rightarrow> Inl ErrKeyNotFound
           | Some val \<Rightarrow> unmarshal val))"

definition Write :: "('v \<Rightarrow> error + bytes) \<Rightarrow> cache \<Rightarrow> int \<Rightarrow> string \<Rightarrow> 'v \<Rightarrow> cache \<times> error option" where
  "Write marshal c now key v =
     (case marshal v of
        Inl e \<Rightarrow> (c, Some e)
      | Inr val \<Rightarrow>
          (let c1 = c\<lparr>data := AList.update key val (data c)\<rparr>;
               c2 = (if timeToLive c1 > 0
                     then c1\<lparr>lastSeen := AList.update key now (lastSeen c1)\<rparr>
                     else c1)
           in (c2, None)))"

definition Delete :: "cache \<Rightarrow> string \<Rightarrow> cache \<times> error option" where
  "Delete c key =
     (c\<lparr>data := AList.delete key (data c), lastSeen := AList.delete key (lastSeen c)\<rparr>, None)"

definition Entries :: "cache \<Rightarrow> nat" where
  "Entries c = length (data c)"

text \<open>
  The iterator. \<open>index\<close> is a Go \<open>int\<close>, modelled as an unbounded integer. Go checks every
  slice index at run time: \<open>iter.values[iter.index]\<close> with a negative index panics, which
  is the second branch of \<open>KV\<close>.
\<close>

record cacheIterator =
  index :: int
  keys :: "string list"
  values' :: "bytes list"

definition newCacheIterator :: "(string \<times> bytes) list \<Rightarrow> cacheIterator" where
  "newCacheIterator d = \<lparr>index = - 1, keys = map fst d, values' = map snd d\<rparr>"

definition Iterator :: "cache \<Rightarrow> cacheIterator" where
  "Iterator c = newCacheIterator (data c)"

definition Next :: "cacheIterator \<Rightarrow> cacheIterator \<times> bool" where
  "Next iter =
     (let iter' = iter\<lparr>index := index iter + 1\<rparr>
      in (iter', index iter' < int (length (keys iter'))))"

definition KV :: "(bytes \<Rightarrow> error + 'v) \<Rightarrow> cacheIterator \<Rightarrow> panic + (string \<times> error option)" where
  "KV unmarshal iter =
     (if index iter \<ge> int (length (keys iter)) then Inr ('''', Some ErrNoMoreItems)
      else if index iter < 0 \<or> index iter \<ge> int (length (values' iter))
      then Inl (Panic ''runtime error: index out of range'')
      else (case unmarshal (values' iter ! nat (index iter)) of
              Inl e \<Rightarrow> Inr ('''', Some e)
            | Inr v \<Rightarrow> Inr (keys iter ! nat (index iter), None)))"

text \<open>
  The calls by which clients change the store, in the order in which they take its
  lock; \<open>Read\<close>, \<open>Entries\<close> and \<open>Iterator\<close> leave the store as it is. Each \<open>Write\<close> carries
  the time at which it is made.
\<close>

datatype 'v store_call = CallWrite int string 'v | CallDelete string

fun call_key :: "'v store_call \<Rightarrow> string" where
  "call_key (CallWrite now key v) = key"
| "call_key (CallDelete key) = key"

fun do_call :: "('v \<Rightarrow> error + bytes) \<Rightarrow> cache \<Rightarrow> 'v store_call \<Rightarrow> cache" where
  "do_call marshal c (CallWrite now key v) = fst (Write marshal c now key v)"
| "do_call marshal c (CallDelete key) = fst (Delete c key)"

definition do_calls :: "('v \<Rightarrow> error + bytes) \<Rightarrow> cache \<Rightarrow> 'v store_call list \<Rightarrow> cache" where
  "do_calls marshal c calls = foldl (do_call marshal) c calls"

section \<open>The dispatcher (package dispatcher)\<close>

text \<open>
  \<open>jsonrpc.Request\<close> and \<open>jsonrpc.Response\<close> are records; \<open>jsonrpc.Response{}\<close>, which
  \<open>Handle\<close> sends when a peer call fails or when the channel closes, is \<open>empty_Response\<close>.
  A message handed to the task is a \<open>server.RequestWithResponder\<close> or something else.
\<close>

record Request =
  req_Version :: string
  req_ID :: "int option"
  req_Method :: string
  req_Params :: bytes

record jsonrpc_Error =
  Code :: int
  Message :: string

record Response =
  Version :: string
  ID :: "int option"
  Result :: "bytes option"
  Error :: "jsonrpc_Error option"

definition empty_Response :: Response where
  "empty_Response = \<lparr>Version = '''', ID = None, Result = None, Error = None\<rparr>"

datatype message = RequestWithResponder Request | OtherMessage

text \<open>
  The address store is a \<open>db.Iterable\<close> of the kv library: the list holds, for each
  entry in iteration order, what \<open>iter.Key()\<close> returns there. The darknode address
  parser \<open>addr.NewMultiAddressFromString\<close> and the HTTP client's \<open>SendToDarknode\<close> are
  parameters.
\<close>

definition multiAddrs ::
  "(string \<Rightarrow> error + 'a) \<Rightarrow> (error + string) list \<Rightarrow> string \<Rightarrow> panic + 'a list" where
  "multiAddrs NewMultiAddressFromString multiStore method =
     (case multiStore of
        [] \<Rightarrow> Inl (Panic ''[dispatcher] empty address store'')
      | k # _ \<Rightarrow>
          (case k of
             Inl err \<Rightarrow> Inl (Panic ''[dispatcher] empty address store'')
           | Inr str \<Rightarrow>
               (case NewMultiAddressFromString str of
                  Inl err \<Rightarrow> Inl (Panic ''[dispatcher] incorrectly stored multi address'')
                | Inr address \<Rightarrow> Inr [address])))"

datatype ResponseIterator = FirstResponseIterator

definition NewFirstResponseIterator :: ResponseIterator where
  "NewFirstResponseIterator = FirstResponseIterator"

definition responseIterator :: "string \<Rightarrow> ResponseIterator" where
  "responseIterator method = NewFirstResponseIterator"

fun update :: "ResponseIterator \<Rightarrow> Response \<Rightarrow> bool \<Rightarrow> bool \<times> Response" where
  "update FirstResponseIterator res final = (True, res)"

text \<open>
  The loop of \<open>Handle\<close> over the \<open>responses\<close> channel: the list is what the channel
  delivers, in arrival order, \<open>i\<close> counts from 1 and \<open>n\<close> is \<open>len(addrs)\<close>. When the
  channel is closed before the iterator is done, the empty response is sent.
\<close>

fun Handle_loop :: "ResponseIterator \<Rightarrow> Response list \<Rightarrow> nat \<Rightarrow> nat \<Rightarrow> Response" where
  "Handle_loop resIter [] i n = empty_Response"
| "Handle_loop resIter (res # rest) i n =
     (case update resIter res (i = n) of
        (done, response) \<Rightarrow> if done then response else Handle_loop resIter rest (i + 1) n)"

text \<open>
  \<open>Handle\<close> returns what it sends on \<open>msg.Responder\<close>, or the panic that stops it. The
  calls of \<open>co.ParForAll\<close> run in parallel and the arrival order of several responses
  would depend on the scheduler; the channel is filled in address order here, which is
  exact for the single address that \<open>multiAddrs\<close> returns.
\<close>

definition Handle ::
  "(string \<Rightarrow> error + 'a) \<Rightarrow> ('a \<Rightarrow> Request \<Rightarrow> error + Response) \<Rightarrow> (error + string) list
     \<Rightarrow> message \<Rightarrow> panic + Response" where
  "Handle NewMultiAddressFromString SendToDarknode multiStore message =
     (case message of
        OtherMessage \<Rightarrow> Inl (Panic ''[dispatcher] unexpected message type'')
      | RequestWithResponder request \<Rightarrow>
          (case multiAddrs NewMultiAddressFromString multiStore (req_Method request) of
             Inl p \<Rightarrow> Inl p
           | Inr addrs \<Rightarrow>
               (let responses =
                      map (\<lambda>a. case SendToDarknode a request of
                                 Inl err \<Rightarrow> empty_Response
                               | Inr response \<Rightarrow> response) addrs;
                    resIter = responseIterator (req_Method request)
                in Inr (Handle_loop resIter responses 1 (length addrs)))))"

section \<open>The transaction checker (package resolver: txChecker)\<close>

text \<open>
  \<open>abi.Tx\<close> of the darknode library: the hash, the contract address \<open>To\<close> that
  \<open>abi.IsShiftIn\<close> inspects, and its three argument lists, kept as named byte strings.
\<close>

type_synonym Args = "(string \<times> bytes) list"

record abi_Tx =
  Hash :: bytes
  To :: string
  In_args :: Args
  Autogen :: Args
  Out_args :: Args

text \<open>
  Modelled from the spec: the transaction status enumeration of the store (section 3,
  status state machine); the \<open>db\<close> package that declares it is not among the sources.
\<close>

datatype TxStatus = Pending | Confirming | Confirmed | Submitted | Done | Rejected | Failed

text \<open>
  Modelled from the spec: the persistent transaction store (\<open>db.DB\<close>, section 6): one
  table whose primary key is the hash, each row holding the transaction, its status and
  the gateway flag. The creation time-stamp, which nothing here reads, is left out.
  \<open>available\<close> is false when the store cannot be reached, the persistence failure of
  section 7.
\<close>

record TxRow =
  row_tx :: abi_Tx
  row_status :: TxStatus
  row_gateway :: bool

record DB =
  rows :: "TxRow list"
  available :: bool

definition tx_hashes :: "DB \<Rightarrow> bytes list" where
  "tx_hashes db = map (\<lambda>r. Hash (row_tx r)) (rows db)"

text \<open>
  Modelled from the spec: \<open>db.Tx\<close>, the select by hash (section 6); a missing row is
  \<open>sql.ErrNoRows\<close>, as the caller \<open>checkDuplicate\<close> expects.
\<close>

definition db_Tx :: "DB \<Rightarrow> bytes \<Rightarrow> bool \<Rightarrow> error + abi_Tx" where
  "db_Tx db hash tagged =
     (if \<not> available db then Inl (Err ''store unavailable'')
      else (case find (\<lambda>r. Hash (row_tx r) = hash) (rows db) of
              None \<Rightarrow> Inl sql_ErrNoRows
            | Some r \<Rightarrow> Inr (row_tx r)))"

text \<open>
  Modelled from the spec: \<open>db.InsertTx\<close>, the insert (section 6): the new row has status
  pending (section 3: pending is the initial state on insert), and the primary key
  rejects a second row with the same hash.
\<close>

definition db_InsertTx :: "DB \<Rightarrow> abi_Tx \<Rightarrow> bool \<Rightarrow> DB \<times> error option" where
  "db_InsertTx db tx gaas =
     (if \<not> available db then (db, Some (Err ''store unavailable''))
      else if Hash tx \<in> set (tx_hashes db) then (db, Some (Err ''duplicate primary key''))
      else (db\<lparr>rows := rows db @ [\<lparr>row_tx = tx, row_status = Pending, row_gateway = gaas\<rparr>]\<rparr>,
            None))"

text \<open>
  \<open>checkDuplicate\<close> runs under the checker's mutex, so it is one atomic step on the store:
  it returns the store after the call and either the error or the transaction.
\<close>

definition checkDuplicate :: "DB \<Rightarrow> abi_Tx \<Rightarrow> string \<Rightarrow> DB \<times> (error + abi_Tx)" where
  "checkDuplicate db tx gaas =
     (case db_Tx db (Hash tx) False of
        Inl err \<Rightarrow>
          if err = sql_ErrNoRows
          then (case db_InsertTx db tx (gaas \<noteq> '''') of
                  (db', None) \<Rightarrow> (db', Inr tx)
                | (db', Some e) \<Rightarrow> (db', Inl e))
          else (db, Inl err)
      | Inr stored \<Rightarrow> (db, Inr stored))"

text \<open>
  The functions of the darknode's \<open>transform\<close> and \<open>abi\<close> packages that \<open>verify\<close> calls
  are parameters, collected in a record; the blockchain client and the distributed
  public key that \<open>ValidateUtxo\<close> and \<open>AddShiftOutDetails\<close> receive are part of them.
\<close>

record transform =
  ValidateTxParams :: "abi_Tx \<Rightarrow> error option"
  PHash :: "abi_Tx \<Rightarrow> error + abi_Tx"
  GHash :: "abi_Tx \<Rightarrow> abi_Tx"
  NHash :: "abi_Tx \<Rightarrow> abi_Tx"
  TxHash :: "abi_Tx \<Rightarrow> abi_Tx"
  IsShiftIn :: "string \<Rightarrow> bool"
  ValidateUtxo :: "abi_Tx \<Rightarrow> error + abi_Tx"
  Sighash :: "abi_Tx \<Rightarrow> abi_Tx"
  AddShiftOutDetails :: "abi_Tx \<Rightarrow> error + abi_Tx"

definition verify :: "transform \<Rightarrow> abi_Tx \<Rightarrow> error + abi_Tx" where
  "verify T params =
     (case ValidateTxParams T params of
        Some err \<Rightarrow> Inl err
      | None \<Rightarrow>
          (case PHash T params of
             Inl err \<Rightarrow> Inl err
           | Inr tx0 \<Rightarrow>
               (let tx1 = GHash T tx0;
                    tx2 = NHash T tx1;
                    tx = TxHash T tx2
                in if IsShiftIn T (To tx)
                   then (case ValidateUtxo T tx of
                           Inl err \<Rightarrow> Inl err
                         | Inr tx' \<Rightarrow> Inr (Sighash T tx'))
                   else AddShiftOutDetails T tx)))"

text \<open>
  Modelled from the spec: the JSON-RPC error codes of the darknode's \<open>jsonrpc\<close> package
  (section 6).
\<close>

definition ErrorCodeInvalidParams :: int where
  "ErrorCodeInvalidParams = - 32602"

definition ErrorCodeInternal :: int where
  "ErrorCodeInternal = - 32603"

text \<open>
  A request read from the checker's channel: its id, the \<open>ParamsSubmitTx\<close> it carries
  and the \<open>gaas\<close> value of its query string. What the worker sends back is an error
  response or the response holding the transaction.
\<close>

record submit_request =
  sub_ID :: "int option"
  sub_Params :: abi_Tx
  sub_gaas :: string

datatype submit_response =
    RespondWithErr "int option" int error
  | NewResponse "int option" abi_Tx

text \<open>The body of the worker loop of \<open>Run\<close>, for one request.\<close>

definition Run_request :: "transform \<Rightarrow> DB \<Rightarrow> submit_request \<Rightarrow> DB \<times> submit_response" where
  "Run_request T db req =
     (case verify T (sub_Params req) of
        Inl err \<Rightarrow> (db, RespondWithErr (sub_ID req) ErrorCodeInvalidParams err)
      | Inr tx \<Rightarrow>
          (case checkDuplicate db tx (sub_gaas req) of
             (db', Inl err) \<Rightarrow> (db', RespondWithErr (sub_ID req) ErrorCodeInternal err)
           | (db', Inr tx') \<Rightarrow> (db', NewResponse (sub_ID req) tx')))"

text \<open>
  \<open>Run\<close> on the requests of the channel. The workers verify in parallel, but touch the
  store only inside \<open>checkDuplicate\<close>, under the mutex: the list is the order in which
  the requests take the lock.
\<close>

fun Run :: "transform \<Rightarrow> DB \<Rightarrow> submit_request list \<Rightarrow> DB \<times> submit_response list" where
  "Run T db [] = (db, [])"
| "Run T db (req # reqs) =
     (case Run_request T db req of
        (db', resp) \<Rightarrow> (case Run T db' reqs of (db'', resps) \<Rightarrow> (db'', resp # resps)))"

section \<open>The watcher (package watcher)\<close>

text \<open>
  A burn event of the gateway contract (\<open>MintGatewayLogicV1LogBurn\<close> of the Ethereum
  bindings): recipient bytes, amount and nonce (\<open>*big.Int\<close>, not negative) and the hash
  of the transaction that emitted it. A \<open>BurnLogResult\<close> carries an event or an error;
  \<open>BurnLogResult{Error: err}\<close> leaves the event at its zero value.
\<close>

record LogBurn =
  log_To :: bytes
  log_Amount :: nat
  log_N :: nat
  log_TxHash :: bytes

record BurnLogResult =
  res_Result :: LogBurn
  res_Error :: "error option"

definition zero_LogBurn :: LogBurn where
  "zero_LogBurn = \<lparr>log_To = [], log_Amount = 0, log_N = 0, log_TxHash = []\<rparr>"

text \<open>
  The iterator that \<open>FilterLogBurn\<close> returns: the events that successive calls of
  \<open>Next\<close> yield before it answers false, what \<open>Error\<close> answers once \<open>Next\<close> has answered
  false (before that it answers nil), and what \<open>Close\<close> answers.
\<close>

record LogBurnIterator =
  it_events :: "LogBurn list"
  it_fail :: "error option"
  it_close :: "error option"

text \<open>
  The inner function of the goroutine of \<open>FetchBurnLogs\<close>, as the list of results it
  sends. After sending an event it executes \<open>select { case <-ctx.Done(): return }\<close>. This
  \<open>select\<close> has one case and no default, so it waits until the context of the round is
  done (the round's context has a timeout) and then returns from the function: \<open>Next\<close>
  is not called a second time.
\<close>

fun fetch_events :: "LogBurn list \<Rightarrow> BurnLogResult list" where
  "fetch_events [] = []"
| "fetch_events (event # rest) = [\<lparr>res_Result = event, res_Error = None\<rparr>]"

text \<open>
  The goroutine: the events sent, then the result of \<open>iter.Error()\<close> if it is an error
  (it can be one only if \<open>Next\<close> has answered false, that is if there was no event), then
  the result of \<open>iter.Close()\<close> if it is an error, then the channel is closed. The list
  is what a receiver reading until the close gets.
\<close>

definition fetch_goroutine :: "LogBurnIterator \<Rightarrow> BurnLogResult list" where
  "fetch_goroutine iter =
     fetch_events (it_events iter)
     @ (case (if it_events iter = [] then it_fail iter else None) of
          None \<Rightarrow> []
        | Some err \<Rightarrow> [\<lparr>res_Result = zero_LogBurn, res_Error = Some err\<rparr>])
     @ (case it_close iter of
          None \<Rightarrow> []
        | Some err \<Rightarrow> [\<lparr>res_Result = zero_LogBurn, res_Error = Some err\<rparr>])"

text \<open>
  \<open>EthBurnLogFetcher.FetchBurnLogs\<close>. The binding's \<open>FilterLogBurn\<close> is a parameter. The
  error returned beside the channel is \<open>iter.Error()\<close> read while the goroutine starts:
  it is nil unless the goroutine's first \<open>Next\<close> has already failed, which the flag
  \<open>raced\<close> stands for.
\<close>

definition FetchBurnLogs ::
  "(u64 \<Rightarrow> u64 \<Rightarrow> error + LogBurnIterator) \<Rightarrow> bool \<Rightarrow> u64 \<Rightarrow> u64
     \<Rightarrow> BurnLogResult list \<times> error option" where
  "FetchBurnLogs FilterLogBurn raced from to =
     (case FilterLogBurn from to of
        Inl err \<Rightarrow> ([], Some err)
      | Inr iter \<Rightarrow>
          (fetch_goroutine iter,
           if raced \<and> it_events iter = [] then it_fail iter else None))"

text \<open>
  The watcher. Its log fetcher is the injected \<open>BurnLogFetcher\<close>. \<open>burnToParams\<close>, which
  builds the \<open>submitTx\<close> parameters from the transaction hash, the amount, the recipient
  and the nonce of an event through the address codecs and hash functions of other
  libraries, is a parameter; the two cache entries it writes are under keys other than
  the cursor's. \<open>NewWatcher\<close> fixes the two block constants.
\<close>

record 'p Watcher =
  burnLogFetcher :: "u64 \<Rightarrow> u64 \<Rightarrow> BurnLogResult list \<times> error option"
  burnToParams :: "bytes \<Rightarrow> u64 \<Rightarrow> bytes \<Rightarrow> u64 \<Rightarrow> error + 'p"
  maxBlockAdvance :: u64
  confidenceInterval :: u64

definition NewWatcher ::
  "(u64 \<Rightarrow> u64 \<Rightarrow> BurnLogResult list \<times> error option)
     \<Rightarrow> (bytes \<Rightarrow> u64 \<Rightarrow> bytes \<Rightarrow> u64 \<Rightarrow> error + 'p) \<Rightarrow> 'p Watcher" where
  "NewWatcher fetcher toParams =
     \<lparr>burnLogFetcher = fetcher, burnToParams = toParams,
      maxBlockAdvance = 1000, confidenceInterval = 6\<rparr>"

text \<open>
  What a round meets outside the watcher: the head the Ethereum client reports (or its
  error), and whether the Redis commands fail: the \<open>Get\<close> of the cursor (the message of
  a failure other than the missing key, which is \<open>redis.Nil\<close>), the \<open>Set\<close> that
  initialises it, the \<open>Set\<close> at the end of the round.
\<close>

record round_env =
  env_head :: "error + u64"
  env_get_err :: "string option"
  env_init_err :: "error option"
  env_set_err :: "error option"

text \<open>
  What a round changes: the value stored under the key \<open><selector>_lastCheckedBlock\<close>
  (\<open>None\<close> when the key is absent), the parameters handed to \<open>resolver.SubmitTx\<close> so far
  and the block ranges requested from the log fetcher so far.
\<close>

record 'p wstate =
  cursor :: "u64 option"
  submitted :: "'p list"
  fetched :: "(u64 \<times> u64) list"

definition currentBlockNumber :: "round_env \<Rightarrow> error + u64" where
  "currentBlockNumber env = env_head env"

definition cache_Get :: "round_env \<Rightarrow> 'p wstate \<Rightarrow> error + u64" where
  "cache_Get env s =
     (case env_get_err env of
        Some msg \<Rightarrow> Inl (Err msg)
      | None \<Rightarrow> (case cursor s of None \<Rightarrow> Inl redis_Nil | Some v \<Rightarrow> Inr v))"

definition lastCheckedBlockNumber ::
  "round_env \<Rightarrow> 'p wstate \<Rightarrow> u64 \<Rightarrow> 'p wstate \<times> (error + u64)" where
  "lastCheckedBlockNumber env s currentBlockN =
     (case cache_Get env s of
        Inl err \<Rightarrow>
          if err = redis_Nil
          then (case env_init_err env of
                  Some err' \<Rightarrow> (s, Inl err')
                | None \<Rightarrow> (s\<lparr>cursor := Some (currentBlockN - 1)\<rparr>, Inr (currentBlockN - 1)))
          else (s, Inl err)
      | Inr last' \<Rightarrow> (s, Inr last'))"

text \<open>
  The loop of \<open>watchLogShiftOuts\<close> over the channel; the flag is false when the loop is
  left by \<open>return\<close> on an error result. \<open>Uint64()\<close> of a \<open>big.Int\<close> is its low 64 bits. The
  response of \<open>SubmitTx\<close> decides a log line only.
\<close>

fun watch_loop :: "'p Watcher \<Rightarrow> BurnLogResult list \<Rightarrow> 'p wstate \<Rightarrow> 'p wstate \<times> bool" where
  "watch_loop watcher [] s = (s, True)"
| "watch_loop watcher (res # c) s =
     (case res_Error res of
        Some err \<Rightarrow> (s, False)
      | None \<Rightarrow>
          (let event = res_Result res;
               to = log_To event;
               amount = (word_of_nat (log_Amount event) :: u64);
               nonce = (word_of_nat (log_N event) :: u64)
           in case burnToParams watcher (log_TxHash event) amount to nonce of
                Inl err \<Rightarrow> watch_loop watcher c s
              | Inr params \<Rightarrow> watch_loop watcher c (s\<lparr>submitted := submitted s @ [params]\<rparr>)))"

definition watchLogShiftOuts :: "'p Watcher \<Rightarrow> round_env \<Rightarrow> 'p wstate \<Rightarrow> 'p wstate" where
  "watchLogShiftOuts watcher env s =
     (case currentBlockNumber env of
        Inl err \<Rightarrow> s
      | Inr cur \<Rightarrow>
          (case lastCheckedBlockNumber env s cur of
             (s1, Inl err) \<Rightarrow> s1
           | (s1, Inr last') \<Rightarrow>
               if cur \<le> last' then s1
               else
                 (let step = last' + maxBlockAdvance watcher;
                      cur1 = (if step < cur then step else cur);
                      cur2 = cur1 - confidenceInterval watcher;
                      s2 = s1\<lparr>fetched := fetched s1 @ [(last', cur2)]\<rparr>
                  in case burnLogFetcher watcher last' cur2 of
                       (c, Some err) \<Rightarrow> s2
                     | (c, None) \<Rightarrow>
                         (case watch_loop watcher c s2 of
                            (s3, False) \<Rightarrow> s3
                          | (s3, True) \<Rightarrow>
                              (case env_set_err env of
                                 Some err \<Rightarrow> s3
                               | None \<Rightarrow> s3\<lparr>cursor := Some cur2\<rparr>)))))"

section \<open>Properties of the store\<close>

lemma Write_ok_data:
  "marshal v = Inr val \<Longrightarrow> map_of (data (fst (Write marshal c now key v))) key = Some val"
  by (simp add: Write_def Let_def update_Some_unfold)

lemma Write_ok_lastSeen:
  "marshal v = Inr val \<Longrightarrow> timeToLive c > 0 \<Longrightarrow>
   map_of (lastSeen (fst (Write marshal c now key v))) key = Some now"
  by (simp add: Write_def Let_def update_Some_unfold)

lemma do_call_timeToLive: "timeToLive (do_call marshal c call) = timeToLive c"
  by (cases call) (simp_all add: Write_def Delete_def Let_def split: sum.splits)

lemma do_call_distinct:
  "distinct (map fst (data c)) \<Longrightarrow> distinct (map fst (data (do_call marshal c call)))"
  by (cases call) (simp_all add: Write_def Delete_def Let_def distinct_update distinct_delete split: sum.splits)

lemma do_call_other_data:
  "call_key call \<noteq> key \<Longrightarrow> map_of (data (do_call marshal c call)) key = map_of (data c) key"
  by (cases call) (simp_all add: Write_def Delete_def Let_def update_conv' delete_conv' split: sum.splits)

lemma do_call_other_lastSeen:
  "call_key call \<noteq> key \<Longrightarrow> map_of (lastSeen (do_call marshal c call)) key = map_of (lastSeen c) key"
  by (cases call) (simp_all add: Write_def Delete_def Let_def update_conv' delete_conv' split: sum.splits)

lemma do_calls_timeToLive: "timeToLive (do_calls marshal c calls) = timeToLive c"
  unfolding do_calls_def by (induction calls arbitrary: c) (simp_all add: do_call_timeToLive)

lemma do_calls_distinct:
  "distinct (map fst (data c)) \<Longrightarrow> distinct (map fst (data (do_calls marshal c calls)))"
  unfolding do_calls_def by (induction calls arbitrary: c) (simp_all add: do_call_distinct)

lemma do_calls_other_data:
  "\<forall>call \<in> set calls. call_key call \<noteq> key \<Longrightarrow>
   map_of (data (do_calls marshal c calls)) key = map_of (data c) key"
  unfolding do_calls_def by (induction calls arbitrary: c) (simp_all add: do_call_other_data)

lemma do_calls_other_lastSeen:
  "\<forall>call \<in> set calls. call_key call \<noteq> key \<Longrightarrow>
   map_of (lastSeen (do_calls marshal c calls)) key = map_of (lastSeen c) key"
  unfolding do_calls_def by (induction calls arbitrary: c) (simp_all add: do_call_other_lastSeen)

lemma do_calls_append: "do_calls marshal c (xs @ ys) = do_calls marshal (do_calls marshal c xs) ys"
  by (simp add: do_calls_def)

lemma length_delete_present:
  "distinct (map fst al) \<Longrightarrow> map_of al k = Some v \<Longrightarrow> length al = Suc (length (AList.delete k al))"
proof (induction al)
  case Nil
  then show ?case by simp
next
  case (Cons p al)
  show ?case
  proof (cases "fst p = k")
    case True
    with Cons.prems(1) have "k \<notin> fst ` set al" by auto
    then have "AList.delete k al = al" by (rule delete_id)
    with True show ?thesis by (cases p) (simp add: AList.delete_eq)
  next
    case False
    with Cons show ?thesis by (cases p) (auto simp: AList.delete_eq)
  qed
qed

text \<open>
  C10. Calling \<open>KV\<close> on a fresh iterator, before any \<open>Next\<close>: the index is \<open>-1\<close>, the guard
  \<open>index >= len(keys)\<close> does not fire, and \<open>values[-1]\<close> is evaluated, which is a run-time
  panic in Go. This holds for every cache, the empty one included; \<open>ErrNoMoreItems\<close> is
  not returned.
\<close>

theorem KV_before_Next_panics:
  "KV unmarshal (Iterator c) = Inl (Panic ''runtime error: index out of range'')"
  by (simp add: KV_def Iterator_def newCacheIterator_def)

text \<open>
  C8, as stated. A cache with a TTL of 10 seconds, one entry written at time 0, looked at
  at time 100: \<open>Read\<close> reports the entry expired, yet it is still in the \<open>data\<close> map and
  \<open>Entries\<close> counts it. No operation of the store removes expired entries: the state
  changes only in \<open>Write\<close> and \<open>Delete\<close>.
\<close>

theorem expired_entry_still_counted_counterexample:
  "Read Inr (fst (Write Inr (NewCache 10) 0 ''k'' [1])) 100 ''k'' = (Inl ErrDataExpired :: error + bytes)
   \<and> map_of (data (fst (Write Inr (NewCache 10) 0 ''k'' [1]))) ''k'' = Some [1]
   \<and> Entries (fst (Write Inr (NewCache 10) 0 ''k'' [1])) = 1"
  by (simp add: Read_def Write_def NewCache_def Entries_def Let_def)

text \<open>
  C8, amended. In a cache with a positive \<open>timeToLive\<close>, take an entry written at time
  \<open>t\<close>, after any earlier calls, and followed by any later writes and deletes of other
  keys. At every time \<open>now\<close> more than \<open>timeToLive\<close> seconds after \<open>t\<close>, \<open>Read\<close> does not
  find the entry and answers \<open>ErrDataExpired\<close>; the entry is still in the map under its
  key, \<open>Iterator\<close> lists it and \<open>Entries\<close> counts it: deleting the key lowers \<open>Entries\<close>
  by one, and it is this \<open>Delete\<close> that removes the entry.
\<close>

theorem expired_entry_unreadable_but_retained:
  assumes ttl: "ttl > 0"
    and m: "marshal v = Inr val"
    and others: "\<forall>call \<in> set later. call_key call \<noteq> key"
    and old: "now - t > ttl"
  shows "Read unmarshal (do_calls marshal (NewCache ttl) (earlier @ [CallWrite t key v] @ later)) now key
           = Inl ErrDataExpired
       \<and> map_of (data (do_calls marshal (NewCache ttl) (earlier @ [CallWrite t key v] @ later))) key = Some val
       \<and> key \<in> set (keys (Iterator (do_calls marshal (NewCache ttl) (earlier @ [CallWrite t key v] @ later))))
       \<and> Entries (do_calls marshal (NewCache ttl) (earlier @ [CallWrite t key v] @ later))
           = Suc (Entries (fst (Delete (do_calls marshal (NewCache ttl) (earlier @ [CallWrite t key v] @ later)) key)))
       \<and> map_of (data (fst (Delete (do_calls marshal (NewCache ttl) (earlier @ [CallWrite t key v] @ later)) key))) key
           = None"
proof -
  let ?before = "do_calls marshal (NewCache ttl) earlier"
  let ?written = "fst (Write marshal ?before t key v)"
  let ?final = "do_calls marshal (NewCache ttl) (earlier @ [CallWrite t key v] @ later)"
  have c: "?final = do_calls marshal ?written later"
    by (simp add: do_calls_append) (simp add: do_calls_def)
  have ttl0: "timeToLive ?before = ttl"
    by (simp add: do_calls_timeToLive NewCache_def)
  have ttlc: "timeToLive ?final = ttl"
    by (simp add: do_calls_timeToLive NewCache_def)
  have seen1: "map_of (lastSeen ?written) key = Some t"
    using m ttl ttl0 by (simp add: Write_ok_lastSeen)
  have data1: "map_of (data ?written) key = Some val"
    using m by (rule Write_ok_data)
  have seen: "map_of (lastSeen ?final) key = Some t"
    unfolding c using others seen1 by (simp add: do_calls_other_lastSeen)
  have stored: "map_of (data ?final) key = Some val"
    unfolding c using others data1 by (simp add: do_calls_other_data)
  have dist: "distinct (map fst (data ?final))"
    by (rule do_calls_distinct) (simp add: NewCache_def)
  have r: "Read unmarshal ?final now key = Inl ErrDataExpired"
    using seen ttlc ttl old by (simp add: Read_def)
  have listed: "key \<in> set (keys (Iterator ?final))"
    using stored by (auto simp: Iterator_def newCacheIterator_def dest: map_of_SomeD intro: rev_image_eqI)
  have counted: "Entries ?final = Suc (Entries (fst (Delete ?final key)))"
    using length_delete_present[OF dist stored] by (simp add: Entries_def Delete_def)
  have gone: "map_of (data (fst (Delete ?final key))) key = None"
    by (simp add: Delete_def delete_conv')
  from r stored listed counted gone show ?thesis by blast
qed

theorem expired_entry_unreadable_but_retained_witness:
  "(10 :: int) > 0 \<and> (Inr [7] :: error + bytes) = Inr [7]
   \<and> call_key (CallWrite 50 ''other'' [9 :: 8 word]) \<noteq> ''k''
   \<and> call_key (CallDelete ''gone'' :: bytes store_call) \<noteq> ''k''
   \<and> (100 :: int) - 0 > 10
   \<and> Read Inr (do_calls Inr (NewCache 10)
                   ([] @ [CallWrite 0 ''k'' [7]] @ [CallWrite 50 ''other'' [9], CallDelete ''gone''])) 100 ''k''
        = (Inl ErrDataExpired :: error + bytes)
   \<and> Entries (do_calls Inr (NewCache 10)
                   ([] @ [CallWrite 0 ''k'' [7]] @ [CallWrite 50 ''other'' [9], CallDelete ''gone'']))
        = Suc (Entries (fst (Delete (do_calls Inr (NewCache 10)
                   ([] @ [CallWrite 0 ''k'' [7]] @ [CallWrite 50 ''other'' [9], CallDelete ''gone''])) ''k'')))"
proof -
  have h1: "(10 :: int) > 0" by simp
  have h2: "(Inr :: bytes \<Rightarrow> error + bytes) [7] = Inr [7]" by simp
  have h3: "\<forall>call \<in> set [CallWrite 50 ''other'' [9 :: 8 word], CallDelete ''gone'']. call_key call \<noteq> ''k''"
    by simp
  have h4: "(100 :: int) - 0 > 10" by simp
  from expired_entry_unreadable_but_retained
         [where ttl = 10 and marshal = "Inr :: bytes \<Rightarrow> error + bytes" and v = "[7]" and val = "[7]"
            and later = "[CallWrite 50 ''other'' [9], CallDelete ''gone'']" and key = "''k''"
            and now = 100 and t = 0 and unmarshal = "Inr :: bytes \<Rightarrow> error + bytes"
            and earlier = "[]", OF h1 h2 h3 h4]
  show ?thesis using h3 by simp
qed

section \<open>Properties of the dispatcher\<close>

lemma multiAddrs_panics_iff:
  "(\<exists>p. multiAddrs parse store method = Inl p) \<longleftrightarrow>
     (store = [] \<or> (\<exists>e rest. store = Inl e # rest)
      \<or> (\<exists>k e rest. store = Inr k # rest \<and> parse k = Inl e))"
  by (auto simp: multiAddrs_def split: list.splits sum.splits)

text \<open>
  C9, as stated. With an empty address store \<open>multiAddrs\<close> panics, and so does \<open>Handle\<close>
  on a well-typed request; with a stored string that does not parse as a multi-address
  both panic as well.
\<close>

theorem dispatcher_panics_counterexample:
  "multiAddrs (\<lambda>s. if s = ''bad'' then Inl (Err ''invalid multiaddress'') else Inr s) [] ''queryBlock''
     = Inl (Panic ''[dispatcher] empty address store'')
   \<and> Handle (\<lambda>s. if s = ''bad'' then Inl (Err ''invalid multiaddress'') else Inr s)
        (\<lambda>a q. Inr empty_Response) []
        (RequestWithResponder \<lparr>req_Version = ''2.0'', req_ID = Some 1, req_Method = ''queryBlock'', req_Params = []\<rparr>)
     = Inl (Panic ''[dispatcher] empty address store'')
   \<and> multiAddrs (\<lambda>s. if s = ''bad'' then Inl (Err ''invalid multiaddress'') else Inr s) [Inr ''bad''] ''queryBlock''
     = Inl (Panic ''[dispatcher] incorrectly stored multi address'')
   \<and> Handle (\<lambda>s. if s = ''bad'' then Inl (Err ''invalid multiaddress'') else Inr s)
        (\<lambda>a q. Inr empty_Response) [Inr ''bad'']
        (RequestWithResponder \<lparr>req_Version = ''2.0'', req_ID = Some 1, req_Method = ''queryBlock'', req_Params = []\<rparr>)
     = Inl (Panic ''[dispatcher] incorrectly stored multi address'')"
  by (simp add: multiAddrs_def Handle_def)

text \<open>
  C9, amended. \<open>multiAddrs\<close> panics exactly when the address store is empty, when the key
  of its first entry cannot be read, or when that key does not parse as a multi-address;
  on a request message \<open>Handle\<close> panics in exactly the same cases, and otherwise both
  return normally.
\<close>

theorem dispatcher_panics_exactly_on_bad_store:
  "((\<exists>p. multiAddrs parse store method = Inl p) \<longleftrightarrow>
      (store = [] \<or> (\<exists>e rest. store = Inl e # rest)
       \<or> (\<exists>k e rest. store = Inr k # rest \<and> parse k = Inl e)))
   \<and> ((\<exists>p. Handle parse send store (RequestWithResponder request) = Inl p) \<longleftrightarrow>
      (store = [] \<or> (\<exists>e rest. store = Inl e # rest)
       \<or> (\<exists>k e rest. store = Inr k # rest \<and> parse k = Inl e)))"
proof -
  have "(\<exists>p. Handle parse send store (RequestWithResponder request) = Inl p) \<longleftrightarrow>
        (\<exists>p. multiAddrs parse store (req_Method request) = Inl p)"
    by (auto simp: Handle_def Let_def split: sum.splits)
  then show ?thesis
    by (simp only: multiAddrs_panics_iff)
qed

theorem dispatcher_panics_exactly_on_bad_store_witness:
  "(\<exists>p. multiAddrs (\<lambda>s. Inr s :: error + string) [] ''queryBlock'' = Inl p)
   \<and> (\<exists>p. Handle (\<lambda>s. Inr s :: error + string) (\<lambda>a q. Inr empty_Response) []
            (RequestWithResponder \<lparr>req_Version = ''2.0'', req_ID = Some 1, req_Method = ''queryBlock'', req_Params = []\<rparr>) = Inl p)"
  using dispatcher_panics_exactly_on_bad_store
          [of "\<lambda>s. Inr s :: error + string" "[]" "''queryBlock''" "\<lambda>a q. Inr empty_Response"
              "\<lparr>req_Version = ''2.0'', req_ID = Some 1, req_Method = ''queryBlock'', req_Params = []\<rparr>"]
  by simp




section \<open>Properties of the transaction checker\<close>

lemma find_hash_None: "find (\<lambda>r. Hash (row_tx r) = h) (rows db) = None \<longleftrightarrow> h \<notin> set (tx_hashes db)"
  by (auto simp: find_None_iff tx_hashes_def)

lemma find_snoc:
  "find P (xs @ [y]) = (case find P xs of None \<Rightarrow> (if P y then Some y else None) | Some x \<Rightarrow> Some x)"
  by (induction xs) auto

lemma db_Tx_absent:
  "available db \<Longrightarrow> h \<notin> set (tx_hashes db) \<Longrightarrow> db_Tx db h t = Inl sql_ErrNoRows"
  using find_hash_None[of h db] by (simp add: db_Tx_def)

lemma db_Tx_present:
  "available db \<Longrightarrow> h \<in> set (tx_hashes db) \<Longrightarrow> \<exists>stored. db_Tx db h t = Inr stored \<and> Hash stored = h"
proof -
  assume a: "available db" and h: "h \<in> set (tx_hashes db)"
  then obtain r where r: "find (\<lambda>r. Hash (row_tx r) = h) (rows db) = Some r"
    using find_hash_None[of h db] by auto
  then have "Hash (row_tx r) = h"
    by (auto simp: find_Some_iff)
  with a r show ?thesis by (simp add: db_Tx_def)
qed

lemma db_Tx_Inr_present: "db_Tx db h t = Inr stored \<Longrightarrow> available db \<and> h \<in> set (tx_hashes db)"
  using find_hash_None[of h db] by (auto simp: db_Tx_def split: if_splits option.splits)

lemma checkDuplicate_present:
  "db_Tx db (Hash tx) False = Inr stored \<Longrightarrow> checkDuplicate db tx gaas = (db, Inr stored)"
  by (simp add: checkDuplicate_def)

lemma checkDuplicate_absent:
  "available db \<Longrightarrow> Hash tx \<notin> set (tx_hashes db) \<Longrightarrow>
   checkDuplicate db tx gaas =
     (db\<lparr>rows := rows db @ [\<lparr>row_tx = tx, row_status = Pending, row_gateway = (gaas \<noteq> '''')\<rparr>]\<rparr>, Inr tx)"
  by (simp add: checkDuplicate_def db_Tx_absent db_InsertTx_def)

lemma checkDuplicate_unavailable:
  "\<not> available db \<Longrightarrow> checkDuplicate db tx gaas = (db, Inl (Err ''store unavailable''))"
  by (simp add: checkDuplicate_def db_Tx_def)

lemma db_Tx_after_insert:
  "available db \<Longrightarrow> Hash tx \<notin> set (tx_hashes db) \<Longrightarrow>
   db_Tx (db\<lparr>rows := rows db @ [\<lparr>row_tx = tx, row_status = st, row_gateway = g\<rparr>]\<rparr>) (Hash tx) t = Inr tx"
  using find_hash_None[of "Hash tx" db] by (simp add: db_Tx_def find_snoc)

lemma db_Tx_stable_insert:
  "db_Tx db h t = Inr stored \<Longrightarrow> db_Tx (db\<lparr>rows := rows db @ [row]\<rparr>) h t = Inr stored"
  by (auto simp: db_Tx_def find_snoc split: if_splits option.splits)

lemma checkDuplicate_cases:
  "checkDuplicate db tx gaas = (db, Inl (Err ''store unavailable'')) \<and> \<not> available db
   \<or> (\<exists>stored. checkDuplicate db tx gaas = (db, Inr stored) \<and> db_Tx db (Hash tx) False = Inr stored)
   \<or> checkDuplicate db tx gaas =
        (db\<lparr>rows := rows db @ [\<lparr>row_tx = tx, row_status = Pending, row_gateway = (gaas \<noteq> '''')\<rparr>]\<rparr>, Inr tx)
      \<and> available db \<and> Hash tx \<notin> set (tx_hashes db)"
proof (cases "available db")
  case False
  then show ?thesis by (simp add: checkDuplicate_unavailable)
next
  case True
  show ?thesis
  proof (cases "Hash tx \<in> set (tx_hashes db)")
    case True
    with \<open>available db\<close> obtain stored where "db_Tx db (Hash tx) False = Inr stored"
      using db_Tx_present by blast
    then show ?thesis by (simp add: checkDuplicate_present)
  next
    case False
    with \<open>available db\<close> show ?thesis by (simp add: checkDuplicate_absent)
  qed
qed

lemma checkDuplicate_keeps_stored:
  "db_Tx db h t = Inr stored \<Longrightarrow> db_Tx (fst (checkDuplicate db tx gaas)) h t = Inr stored"
  using checkDuplicate_cases[of db tx gaas] by (auto simp: db_Tx_stable_insert)

lemma checkDuplicate_available: "available (fst (checkDuplicate db tx gaas)) = available db"
  using checkDuplicate_cases[of db tx gaas] by auto

lemma checkDuplicate_distinct:
  "distinct (tx_hashes db) \<Longrightarrow> distinct (tx_hashes (fst (checkDuplicate db tx gaas)))"
  using checkDuplicate_cases[of db tx gaas] by (auto simp: tx_hashes_def)

lemma Run_request_keeps_stored:
  "db_Tx db h t = Inr stored \<Longrightarrow> db_Tx (fst (Run_request T db req)) h t = Inr stored"
  by (auto simp: Run_request_def split: sum.splits prod.splits
           dest: checkDuplicate_keeps_stored[where tx = "projr (verify T (sub_Params req))" and gaas = "sub_gaas req"])

lemma fst_Run_Cons: "fst (Run T db (req # reqs)) = fst (Run T (fst (Run_request T db req)) reqs)"
  by (simp split: prod.splits)

lemma Run_keeps_stored:
  "db_Tx db h t = Inr stored \<Longrightarrow> db_Tx (fst (Run T db reqs)) h t = Inr stored"
proof (induction reqs arbitrary: db)
  case Nil
  then show ?case by simp
next
  case (Cons req reqs)
  from Cons.prems have "db_Tx (fst (Run_request T db req)) h t = Inr stored"
    by (rule Run_request_keeps_stored)
  then have "db_Tx (fst (Run T (fst (Run_request T db req)) reqs)) h t = Inr stored"
    by (rule Cons.IH)
  then show ?case by (simp only: fst_Run_Cons)
qed

lemma Run_request_verified:
  "verify T (sub_Params req) = Inr tx \<Longrightarrow>
   Run_request T db req =
     (fst (checkDuplicate db tx (sub_gaas req)),
      case snd (checkDuplicate db tx (sub_gaas req)) of
        Inl err \<Rightarrow> RespondWithErr (sub_ID req) ErrorCodeInternal err
      | Inr tx' \<Rightarrow> NewResponse (sub_ID req) tx')"
  by (simp add: Run_request_def split: prod.splits sum.splits)
lemma at_most_one_row:
  "distinct (map f xs) \<Longrightarrow> length (filter (\<lambda>r. f r = h) xs) \<le> 1"
  by (induction xs) (auto simp: filter_empty_conv image_iff)

lemma Run_request_distinct:
  "distinct (tx_hashes db) \<Longrightarrow> distinct (tx_hashes (fst (Run_request T db req)))"
  using checkDuplicate_distinct[of db "projr (verify T (sub_Params req))" "sub_gaas req"]
  by (auto simp: Run_request_def split: sum.splits prod.splits)

text \<open>
  C1. A submission that passes \<open>verify\<close> with transaction \<open>tx\<close>, on a reachable store in
  which no hash occurs twice. If a row with the hash of \<open>tx\<close> is present, the stored
  record is returned and the store is unchanged; if none is present, one row with status
  pending is appended and \<open>tx\<close> itself is returned. In both cases the record returned is
  the one every later submission with the same hash gets, whatever other requests were
  processed in between, and such a resubmission leaves the store as it is. No hash occurs
  in more than one row afterwards, and the hash of \<open>tx\<close> occurs in exactly one.
\<close>

theorem checkDuplicate_one_canonical_record:
  assumes v: "verify T (sub_Params req) = Inr tx"
    and a: "available db"
    and d: "distinct (tx_hashes db)"
  shows "(Hash tx \<in> set (tx_hashes db) \<longrightarrow>
            (\<exists>stored. db_Tx db (Hash tx) False = Inr stored
                     \<and> Run_request T db req = (db, NewResponse (sub_ID req) stored)))
       \<and> (Hash tx \<notin> set (tx_hashes db) \<longrightarrow>
            Run_request T db req =
              (db\<lparr>rows := rows db @
                    [\<lparr>row_tx = tx, row_status = Pending, row_gateway = (sub_gaas req \<noteq> '''')\<rparr>]\<rparr>,
               NewResponse (sub_ID req) tx))
       \<and> (\<exists>canon. snd (Run_request T db req) = NewResponse (sub_ID req) canon
             \<and> (\<forall>reqs req' tx'.
                   verify T (sub_Params req') = Inr tx' \<and> Hash tx' = Hash tx \<longrightarrow>
                   Run_request T (fst (Run T (fst (Run_request T db req)) reqs)) req'
                     = (fst (Run T (fst (Run_request T db req)) reqs), NewResponse (sub_ID req') canon)))
       \<and> (\<forall>h. length (filter (\<lambda>r. Hash (row_tx r) = h) (rows (fst (Run_request T db req)))) \<le> 1)
       \<and> length (filter (\<lambda>r. Hash (row_tx r) = Hash tx) (rows (fst (Run_request T db req)))) = 1"
proof -
  let ?cd = "checkDuplicate db tx (sub_gaas req)"
  let ?db1 = "fst (Run_request T db req)"
  have rr: "Run_request T db req =
              (fst ?cd, case snd ?cd of Inl err \<Rightarrow> RespondWithErr (sub_ID req) ErrorCodeInternal err
                                     | Inr tx' \<Rightarrow> NewResponse (sub_ID req) tx')"
    using v by (rule Run_request_verified)
  have present: "Hash tx \<in> set (tx_hashes db) \<longrightarrow>
            (\<exists>stored. db_Tx db (Hash tx) False = Inr stored
                     \<and> Run_request T db req = (db, NewResponse (sub_ID req) stored))"
  proof
    assume "Hash tx \<in> set (tx_hashes db)"
    with a obtain stored where s: "db_Tx db (Hash tx) False = Inr stored"
      using db_Tx_present by blast
    then have "?cd = (db, Inr stored)" by (rule checkDuplicate_present)
    with rr s show "\<exists>stored. db_Tx db (Hash tx) False = Inr stored
                     \<and> Run_request T db req = (db, NewResponse (sub_ID req) stored)"
      by simp
  qed
  have absent: "Hash tx \<notin> set (tx_hashes db) \<longrightarrow>
            Run_request T db req =
              (db\<lparr>rows := rows db @
                    [\<lparr>row_tx = tx, row_status = Pending, row_gateway = (sub_gaas req \<noteq> '''')\<rparr>]\<rparr>,
               NewResponse (sub_ID req) tx)"
    using a rr by (simp add: checkDuplicate_absent)
  obtain canon where c1: "snd (Run_request T db req) = NewResponse (sub_ID req) canon"
    and c2: "db_Tx ?db1 (Hash tx) False = Inr canon"
  proof (cases "Hash tx \<in> set (tx_hashes db)")
    case True
    with present obtain stored where "db_Tx db (Hash tx) False = Inr stored"
      and "Run_request T db req = (db, NewResponse (sub_ID req) stored)" by blast
    then show ?thesis using that[of stored] by simp
  next
    case False
    with absent a show ?thesis using that[of tx] by (simp add: db_Tx_after_insert)
  qed
  have later: "Run_request T (fst (Run T ?db1 reqs)) req'
                 = (fst (Run T ?db1 reqs), NewResponse (sub_ID req') canon)"
    if v': "verify T (sub_Params req') = Inr tx'" and h': "Hash tx' = Hash tx" for reqs req' tx'
  proof -
    have "db_Tx (fst (Run T ?db1 reqs)) (Hash tx') False = Inr canon"
      using c2 h' by (simp add: Run_keeps_stored)
    then have "checkDuplicate (fst (Run T ?db1 reqs)) tx' (sub_gaas req')
                 = (fst (Run T ?db1 reqs), Inr canon)"
      by (rule checkDuplicate_present)
    then show ?thesis using Run_request_verified[OF v', of "fst (Run T ?db1 reqs)"] by simp
  qed
  have d1: "distinct (tx_hashes ?db1)"
    using d by (rule Run_request_distinct)
  then have most: "length (filter (\<lambda>r. Hash (row_tx r) = h) (rows ?db1)) \<le> 1" for h
    unfolding tx_hashes_def by (rule at_most_one_row)
  have "Hash tx \<in> set (tx_hashes ?db1)"
    using c2 db_Tx_Inr_present by blast
  then have "filter (\<lambda>r. Hash (row_tx r) = Hash tx) (rows ?db1) \<noteq> []"
    by (auto simp: tx_hashes_def filter_empty_conv)
  then have "length (filter (\<lambda>r. Hash (row_tx r) = Hash tx) (rows ?db1)) \<ge> 1"
    by (cases "filter (\<lambda>r. Hash (row_tx r) = Hash tx) (rows ?db1)") simp_all
  with most[of "Hash tx"] have one: "length (filter (\<lambda>r. Hash (row_tx r) = Hash tx) (rows ?db1)) = 1"
    by simp
  from present absent c1 later most one show ?thesis by blast
qed
theorem checkDuplicate_one_canonical_record_witness:
  "verify \<lparr>ValidateTxParams = (\<lambda>t. None), PHash = Inr, GHash = (\<lambda>t. t), NHash = (\<lambda>t. t),
            TxHash = (\<lambda>t. t), IsShiftIn = (\<lambda>s. True), ValidateUtxo = Inr, Sighash = (\<lambda>t. t),
            AddShiftOutDetails = Inr\<rparr>
          (sub_Params \<lparr>sub_ID = Some 1,
                       sub_Params = \<lparr>Hash = [1], To = ''BTC0Btc2Eth'', In_args = [], Autogen = [], Out_args = []\<rparr>,
                       sub_gaas = ''''\<rparr>)
     = Inr \<lparr>Hash = [1], To = ''BTC0Btc2Eth'', In_args = [], Autogen = [], Out_args = []\<rparr>
   \<and> available \<lparr>rows = [], available = True\<rparr>
   \<and> distinct (tx_hashes \<lparr>rows = [], available = True\<rparr>)
   \<and> Run_request \<lparr>ValidateTxParams = (\<lambda>t. None), PHash = Inr, GHash = (\<lambda>t. t), NHash = (\<lambda>t. t),
            TxHash = (\<lambda>t. t), IsShiftIn = (\<lambda>s. True), ValidateUtxo = Inr, Sighash = (\<lambda>t. t),
            AddShiftOutDetails = Inr\<rparr>
          \<lparr>rows = [], available = True\<rparr>
          \<lparr>sub_ID = Some 1,
           sub_Params = \<lparr>Hash = [1], To = ''BTC0Btc2Eth'', In_args = [], Autogen = [], Out_args = []\<rparr>,
           sub_gaas = ''''\<rparr>
     = (\<lparr>rows = [\<lparr>row_tx = \<lparr>Hash = [1], To = ''BTC0Btc2Eth'', In_args = [], Autogen = [], Out_args = []\<rparr>,
                   row_status = Pending, row_gateway = False\<rparr>],
         available = True\<rparr>,
        NewResponse (Some 1) \<lparr>Hash = [1], To = ''BTC0Btc2Eth'', In_args = [], Autogen = [], Out_args = []\<rparr>)"
proof -
  let ?T = "\<lparr>ValidateTxParams = (\<lambda>t. None), PHash = Inr, GHash = (\<lambda>t. t), NHash = (\<lambda>t. t),
            TxHash = (\<lambda>t. t), IsShiftIn = (\<lambda>s. True), ValidateUtxo = Inr, Sighash = (\<lambda>t. t),
            AddShiftOutDetails = Inr\<rparr>"
  let ?tx = "\<lparr>Hash = [1], To = ''BTC0Btc2Eth'', In_args = [], Autogen = [], Out_args = []\<rparr>"
  let ?req = "\<lparr>sub_ID = Some 1, sub_Params = ?tx, sub_gaas = ''''\<rparr>"
  let ?db = "\<lparr>rows = [], available = True\<rparr>"
  have h1: "verify ?T (sub_Params ?req) = Inr ?tx" by (simp add: verify_def)
  have h2: "available ?db" by simp
  have h3: "distinct (tx_hashes ?db)" by (simp add: tx_hashes_def)
  have h4: "Hash ?tx \<notin> set (tx_hashes ?db)" by (simp add: tx_hashes_def)
  from checkDuplicate_one_canonical_record[OF h1 h2 h3] h4
  have "Run_request ?T ?db ?req =
          (?db\<lparr>rows := rows ?db @ [\<lparr>row_tx = ?tx, row_status = Pending, row_gateway = (sub_gaas ?req \<noteq> '''')\<rparr>]\<rparr>,
           NewResponse (sub_ID ?req) ?tx)"
    by blast
  with h1 h2 h3 show ?thesis by simp
qed

text \<open>
  C7. When \<open>verify\<close> rejects a submission the worker answers with the invalid-params error
  code and the error, and the store after the request is the store before it. This
  covers a failure of \<open>ValidateTxParams\<close> and, the parameters being valid, a failure of
  the payload hash check \<open>PHash\<close>, which \<open>verify\<close> returns as they are.
\<close>

theorem validation_failure_writes_nothing:
  "(verify T (sub_Params req) = Inl err \<longrightarrow>
      Run_request T db req = (db, RespondWithErr (sub_ID req) ErrorCodeInvalidParams err))
   \<and> (ValidateTxParams T (sub_Params req) = Some err \<longrightarrow> verify T (sub_Params req) = Inl err)
   \<and> (ValidateTxParams T (sub_Params req) = None \<and> PHash T (sub_Params req) = Inl err \<longrightarrow>
        verify T (sub_Params req) = Inl err)"
  by (simp add: Run_request_def verify_def)

theorem validation_failure_writes_nothing_witness:
  "ValidateTxParams
      \<lparr>ValidateTxParams = (\<lambda>t. Some (Err ''invalid selector'')), PHash = Inr, GHash = (\<lambda>t. t),
       NHash = (\<lambda>t. t), TxHash = (\<lambda>t. t), IsShiftIn = (\<lambda>s. True), ValidateUtxo = Inr,
       Sighash = (\<lambda>t. t), AddShiftOutDetails = Inr\<rparr>
      (sub_Params \<lparr>sub_ID = Some 1,
                   sub_Params = \<lparr>Hash = [1], To = '''', In_args = [], Autogen = [], Out_args = []\<rparr>,
                   sub_gaas = ''''\<rparr>)
     = Some (Err ''invalid selector'')
   \<and> Run_request
      \<lparr>ValidateTxParams = (\<lambda>t. Some (Err ''invalid selector'')), PHash = Inr, GHash = (\<lambda>t. t),
       NHash = (\<lambda>t. t), TxHash = (\<lambda>t. t), IsShiftIn = (\<lambda>s. True), ValidateUtxo = Inr,
       Sighash = (\<lambda>t. t), AddShiftOutDetails = Inr\<rparr>
      \<lparr>rows = [], available = True\<rparr>
      \<lparr>sub_ID = Some 1,
       sub_Params = \<lparr>Hash = [1], To = '''', In_args = [], Autogen = [], Out_args = []\<rparr>,
       sub_gaas = ''''\<rparr>
     = (\<lparr>rows = [], available = True\<rparr>,
        RespondWithErr (Some 1) ErrorCodeInvalidParams (Err ''invalid selector''))"
proof -
  let ?T = "\<lparr>ValidateTxParams = (\<lambda>t. Some (Err ''invalid selector'')), PHash = Inr, GHash = (\<lambda>t. t),
       NHash = (\<lambda>t. t), TxHash = (\<lambda>t. t), IsShiftIn = (\<lambda>s. True), ValidateUtxo = Inr,
       Sighash = (\<lambda>t. t), AddShiftOutDetails = Inr\<rparr>"
  let ?req = "\<lparr>sub_ID = Some 1,
       sub_Params = \<lparr>Hash = [1], To = '''', In_args = [], Autogen = [], Out_args = []\<rparr>,
       sub_gaas = ''''\<rparr>"
  have h: "ValidateTxParams ?T (sub_Params ?req) = Some (Err ''invalid selector'')" by simp
  from validation_failure_writes_nothing[of ?T ?req "Err ''invalid selector''" "\<lparr>rows = [], available = True\<rparr>"] h
  have "Run_request ?T \<lparr>rows = [], available = True\<rparr> ?req
          = (\<lparr>rows = [], available = True\<rparr>,
             RespondWithErr (sub_ID ?req) ErrorCodeInvalidParams (Err ''invalid selector''))"
    by blast
  with h show ?thesis by simp
qed

section \<open>Properties of the watcher\<close>

lemma watch_loop_keeps:
  "cursor (fst (watch_loop W c s)) = cursor s \<and> fetched (fst (watch_loop W c s)) = fetched s"
  by (induction W c s rule: watch_loop.induct) (simp_all add: Let_def split: option.splits sum.splits)

lemma watch_loop_completes:
  "snd (watch_loop W c s) \<longleftrightarrow> (\<forall>r \<in> set c. res_Error r = None)"
  by (induction W c s rule: watch_loop.induct) (simp_all add: Let_def split: option.splits sum.splits)

lemma lastCheckedBlockNumber_error:
  "lastCheckedBlockNumber env s H = (s1, Inl e) \<Longrightarrow> s1 = s"
  by (auto simp: lastCheckedBlockNumber_def cache_Get_def split: option.splits if_splits sum.splits)

lemma lastCheckedBlockNumber_value:
  "lastCheckedBlockNumber env s H = (s1, Inr L) \<Longrightarrow>
   cursor s1 = Some L \<and> fetched s1 = fetched s \<and> submitted s1 = submitted s
   \<and> (cursor s = Some L \<and> s1 = s \<or> cursor s = None \<and> L = H - 1)"
  by (auto simp: lastCheckedBlockNumber_def cache_Get_def split: option.splits if_splits sum.splits)

lemma lastCheckedBlockNumber_stored:
  "env_get_err env = None \<Longrightarrow> cursor s = Some L \<Longrightarrow> lastCheckedBlockNumber env s H = (s, Inr L)"
  by (simp add: lastCheckedBlockNumber_def cache_Get_def)

lemma round_unfold:
  assumes "env_head env = Inr H" and "lastCheckedBlockNumber env s H = (s1, Inr L)" and "L < H"
  shows "watchLogShiftOuts W env s =
           (case burnLogFetcher W L (min H (L + maxBlockAdvance W) - confidenceInterval W) of
              (c, Some err) \<Rightarrow>
                s1\<lparr>fetched := fetched s1 @ [(L, min H (L + maxBlockAdvance W) - confidenceInterval W)]\<rparr>
            | (c, None) \<Rightarrow>
                (case watch_loop W c
                        (s1\<lparr>fetched := fetched s1 @ [(L, min H (L + maxBlockAdvance W) - confidenceInterval W)]\<rparr>) of
                   (s3, False) \<Rightarrow> s3
                 | (s3, True) \<Rightarrow>
                     (case env_set_err env of
                        Some err \<Rightarrow> s3
                      | None \<Rightarrow> s3\<lparr>cursor := Some (min H (L + maxBlockAdvance W) - confidenceInterval W)\<rparr>)))"
proof -
  have m: "(if L + maxBlockAdvance W < H then L + maxBlockAdvance W else H) = min H (L + maxBlockAdvance W)"
    by (auto simp: min_def)
  from assms(3) have "\<not> H \<le> L" by simp
  with assms(1,2) have "watchLogShiftOuts W env s =
      (let cur2 = (if L + maxBlockAdvance W < H then L + maxBlockAdvance W else H) - confidenceInterval W;
           s2 = s1\<lparr>fetched := fetched s1 @ [(L, cur2)]\<rparr>
       in case burnLogFetcher W L cur2 of
            (c, Some err) \<Rightarrow> s2
          | (c, None) \<Rightarrow>
              (case watch_loop W c s2 of
                 (s3, False) \<Rightarrow> s3
               | (s3, True) \<Rightarrow>
                   (case env_set_err env of Some err \<Rightarrow> s3 | None \<Rightarrow> s3\<lparr>cursor := Some cur2\<rparr>)))"
    unfolding watchLogShiftOuts_def currentBlockNumber_def Let_def
    by (simp split del: if_split)
  then show ?thesis
    unfolding m Let_def .
qed

lemma round_fetched:
  assumes "env_head env = Inr H" and "lastCheckedBlockNumber env s H = (s1, Inr L)" and "L < H"
  shows "fetched (watchLogShiftOuts W env s)
           = fetched s @ [(L, min H (L + maxBlockAdvance W) - confidenceInterval W)]"
proof -
  have f: "fetched s1 = fetched s"
    using assms(2) by (simp add: lastCheckedBlockNumber_value)
  let ?T = "min H (L + maxBlockAdvance W) - confidenceInterval W"
  let ?s2 = "s1\<lparr>fetched := fetched s1 @ [(L, ?T)]\<rparr>"
  obtain c e where fe: "burnLogFetcher W L ?T = (c, e)" by (cases "burnLogFetcher W L ?T")
  obtain s3 b where wl: "watch_loop W c ?s2 = (s3, b)" by (cases "watch_loop W c ?s2")
  have "fetched s3 = fetched ?s2"
    using watch_loop_keeps[of W c ?s2] wl by simp
  then show ?thesis
    unfolding round_unfold[OF assms] using f fe wl
    by (simp split: option.splits bool.splits)
qed

lemma round_cursor_failed:
  assumes "env_head env = Inr H" and "lastCheckedBlockNumber env s H = (s1, Inr L)" and "L < H"
    and "snd (burnLogFetcher W L (min H (L + maxBlockAdvance W) - confidenceInterval W)) \<noteq> None
         \<or> (\<exists>r \<in> set (fst (burnLogFetcher W L (min H (L + maxBlockAdvance W) - confidenceInterval W))).
               res_Error r \<noteq> None)"
  shows "cursor (watchLogShiftOuts W env s) = Some L"
proof -
  let ?T = "min H (L + maxBlockAdvance W) - confidenceInterval W"
  let ?s2 = "s1\<lparr>fetched := fetched s1 @ [(L, ?T)]\<rparr>"
  have c1: "cursor s1 = Some L"
    using assms(2) by (simp add: lastCheckedBlockNumber_value)
  obtain c e where fe: "burnLogFetcher W L ?T = (c, e)" by (cases "burnLogFetcher W L ?T")
  show ?thesis
  proof (cases e)
    case (Some err)
    with fe c1 show ?thesis unfolding round_unfold[OF assms(1-3)] by simp
  next
    case None
    with assms(4) fe have "\<not> snd (watch_loop W c ?s2)"
      by (simp add: watch_loop_completes)
    moreover have "cursor (fst (watch_loop W c ?s2)) = Some L"
      using c1 by (simp add: watch_loop_keeps)
    ultimately show ?thesis
      unfolding round_unfold[OF assms(1-3)] using fe None
      by (cases "watch_loop W c ?s2") simp
  qed
qed

lemma round_cursor_completed:
  assumes "env_head env = Inr H" and "lastCheckedBlockNumber env s H = (s1, Inr L)" and "L < H"
    and "snd (burnLogFetcher W L (min H (L + maxBlockAdvance W) - confidenceInterval W)) = None"
    and "\<forall>r \<in> set (fst (burnLogFetcher W L (min H (L + maxBlockAdvance W) - confidenceInterval W))).
               res_Error r = None"
    and "env_set_err env = None"
  shows "cursor (watchLogShiftOuts W env s) = Some (min H (L + maxBlockAdvance W) - confidenceInterval W)"
proof -
  let ?T = "min H (L + maxBlockAdvance W) - confidenceInterval W"
  let ?s2 = "s1\<lparr>fetched := fetched s1 @ [(L, ?T)]\<rparr>"
  obtain c where fe: "burnLogFetcher W L ?T = (c, None)"
    using assms(4) by (cases "burnLogFetcher W L ?T") simp
  with assms(5) have "snd (watch_loop W c ?s2)"
    by (simp add: watch_loop_completes)
  then show ?thesis
    unfolding round_unfold[OF assms(1-3)] using fe assms(6)
    by (cases "watch_loop W c ?s2") simp
qed

lemma target_no_wrap:
  fixes H L :: u64
  assumes "unat L + 1000 < 2 ^ 64" and "6 \<le> unat H"
  shows "unat (min H (L + 1000) - 6) = min (unat H) (unat L + 1000) - 6
         \<and> unat (min H (L + 1000) - 6) + 6 \<le> unat H"
proof -
  have a: "unat (L + 1000) = unat L + 1000"
    using assms(1) by (simp add: unat_add_lem[THEN iffD1])
  have m: "unat (min H (L + 1000)) = min (unat H) (unat L + 1000)"
    using a by (simp add: min_def word_le_nat_alt)
  have six: "(6 :: u64) \<le> min H (L + 1000)"
    using assms(2) m by (simp add: word_le_nat_alt)
  have "unat (min H (L + 1000) - 6) = unat (min H (L + 1000)) - unat (6 :: u64)"
    using six by (rule unat_sub)
  with m assms(2) show ?thesis by simp
qed
text \<open>
  C2. The head is one block after the stored cursor: head 101, cursor 100, the log
  fetcher of the source on a filter that finds no event, no failure anywhere. The round
  passes the test \<open>cur <= last\<close>, subtracts the confidence interval from the head and
  stores 95, which is less than the 100 it read. The same happens in the first round of
  a fresh deployment, where the missing cursor is initialised to 100 and then
  overwritten by 95.
\<close>

theorem cursor_moves_back_when_head_is_next_block:
  "cursor (watchLogShiftOuts
             (NewWatcher
                (FetchBurnLogs (\<lambda>from to. Inr \<lparr>it_events = [], it_fail = None, it_close = None\<rparr>) False)
                (\<lambda>txid amount to nonce. Inr (txid, amount, to, nonce)))
             \<lparr>env_head = Inr 101, env_get_err = None, env_init_err = None, env_set_err = None\<rparr>
             \<lparr>cursor = Some 100, submitted = [], fetched = []\<rparr>)
     = Some 95
   \<and> (95 :: u64) < 100
   \<and> lastCheckedBlockNumber
        \<lparr>env_head = Inr 101, env_get_err = None, env_init_err = None, env_set_err = None\<rparr>
        \<lparr>cursor = None, submitted = ([] :: (bytes \<times> u64 \<times> bytes \<times> u64) list), fetched = []\<rparr> 101
     = (\<lparr>cursor = Some 100, submitted = [], fetched = []\<rparr>, Inr 100)
   \<and> cursor (watchLogShiftOuts
             (NewWatcher
                (FetchBurnLogs (\<lambda>from to. Inr \<lparr>it_events = [], it_fail = None, it_close = None\<rparr>) False)
                (\<lambda>txid amount to nonce. Inr (txid, amount, to, nonce)))
             \<lparr>env_head = Inr 101, env_get_err = None, env_init_err = None, env_set_err = None\<rparr>
             \<lparr>cursor = None, submitted = [], fetched = []\<rparr>)
     = Some 95"
  by (simp add: watchLogShiftOuts_def currentBlockNumber_def lastCheckedBlockNumber_def cache_Get_def
        NewWatcher_def FetchBurnLogs_def fetch_goroutine_def Let_def)

text \<open>
  C3. The filter finds two burn events in the range of the round (head 110, cursor 90,
  range from 90 to 104). \<open>FetchBurnLogs\<close> delivers the first event only, then the channel
  is closed; the round hands one \<open>submitTx\<close> to the resolver, for the first event, and
  stores 104 as the new cursor, so the second event is not looked at again.
\<close>

theorem second_burn_event_is_dropped:
  "FetchBurnLogs
      (\<lambda>from to. Inr \<lparr>it_events = [\<lparr>log_To = [1], log_Amount = 5, log_N = 1, log_TxHash = [10]\<rparr>,
                                      \<lparr>log_To = [2], log_Amount = 7, log_N = 2, log_TxHash = [11]\<rparr>],
                        it_fail = None, it_close = None\<rparr>) False 90 104
     = ([\<lparr>res_Result = \<lparr>log_To = [1], log_Amount = 5, log_N = 1, log_TxHash = [10]\<rparr>,
          res_Error = None\<rparr>], None)
   \<and> watchLogShiftOuts
        (NewWatcher
           (FetchBurnLogs
              (\<lambda>from to. Inr \<lparr>it_events = [\<lparr>log_To = [1], log_Amount = 5, log_N = 1, log_TxHash = [10]\<rparr>,
                                              \<lparr>log_To = [2], log_Amount = 7, log_N = 2, log_TxHash = [11]\<rparr>],
                                it_fail = None, it_close = None\<rparr>) False)
           (\<lambda>txid amount to nonce. Inr (txid, amount, to, nonce)))
        \<lparr>env_head = Inr 110, env_get_err = None, env_init_err = None, env_set_err = None\<rparr>
        \<lparr>cursor = Some 90, submitted = [], fetched = []\<rparr>
     = \<lparr>cursor = Some 104, submitted = [([10], 5, [1], 1)], fetched = [(90, 104)]\<rparr>"
  by (simp add: watchLogShiftOuts_def currentBlockNumber_def lastCheckedBlockNumber_def cache_Get_def
        NewWatcher_def FetchBurnLogs_def fetch_goroutine_def Let_def)

text \<open>
  What the target of a round is when nothing wraps: a watcher built by \<open>NewWatcher\<close>
  that reads head \<open>H\<close> and last checked block \<open>L\<close> with \<open>L < H\<close> asks the log fetcher for
  the range from \<open>L\<close> to \<open>min H (L + 1000) - 6\<close>, computed in 64-bit arithmetic, and stores
  that block when the round completes; if \<open>L + 1000\<close> does not overflow and the head is at
  least 6, this is the number \<open>min H (L + 1000) - 6\<close>, at least 6 blocks behind the head.
\<close>

lemma round_target_in_range:
  assumes "env_head env = Inr H"
    and "lastCheckedBlockNumber env s H = (s1, Inr L)"
    and "L < H"
  shows "fetched (watchLogShiftOuts (NewWatcher fetcher toParams) env s)
           = fetched s @ [(L, min H (L + 1000) - 6)]
       \<and> (snd (fetcher L (min H (L + 1000) - 6)) = None
            \<and> (\<forall>r \<in> set (fst (fetcher L (min H (L + 1000) - 6))). res_Error r = None)
            \<and> env_set_err env = None
          \<longrightarrow> cursor (watchLogShiftOuts (NewWatcher fetcher toParams) env s)
                = Some (min H (L + 1000) - 6))
       \<and> (unat L + 1000 < 2 ^ 64 \<and> 6 \<le> unat H
          \<longrightarrow> unat (min H (L + 1000) - 6) = min (unat H) (unat L + 1000) - 6
              \<and> unat (min H (L + 1000) - 6) + 6 \<le> unat H)"
proof -
  let ?W = "NewWatcher fetcher toParams"
  have W: "maxBlockAdvance ?W = 1000" "confidenceInterval ?W = 6" "burnLogFetcher ?W = fetcher"
    by (simp_all add: NewWatcher_def)
  have "fetched (watchLogShiftOuts ?W env s) = fetched s @ [(L, min H (L + 1000) - 6)]"
    using round_fetched[OF assms, of ?W] by (simp only: W)
  moreover have "cursor (watchLogShiftOuts ?W env s) = Some (min H (L + 1000) - 6)"
    if "snd (fetcher L (min H (L + 1000) - 6)) = None"
      and "\<forall>r \<in> set (fst (fetcher L (min H (L + 1000) - 6))). res_Error r = None"
      and "env_set_err env = None"
    using round_cursor_completed[OF assms, of ?W] that by (simp only: W)
  ultimately show ?thesis
    using target_no_wrap[of L H] by blast
qed

text \<open>
  C4. The head is below the confidence interval: head 3, cursor 2, no failure anywhere.
  The round passes the test \<open>cur <= last\<close>; \<open>min(3, 2 + 1000) - 6\<close> is \<open>-3\<close>, but the
  subtraction is done on a \<open>uint64\<close> and wraps: the round asks the fetcher for the range
  from 2 to \<open>2^64 - 3\<close>, which reaches past the head instead of ending 6 blocks before
  it, and stores \<open>2^64 - 3\<close> as the cursor.
\<close>

theorem target_wraps_when_head_is_below_confidence_interval:
  "watchLogShiftOuts
      (NewWatcher
         (FetchBurnLogs (\<lambda>from to. Inr \<lparr>it_events = [], it_fail = None, it_close = None\<rparr>) False)
         (\<lambda>txid amount to nonce. Inr (txid, amount, to, nonce)))
      \<lparr>env_head = Inr 3, env_get_err = None, env_init_err = None, env_set_err = None\<rparr>
      \<lparr>cursor = Some 2, submitted = [], fetched = []\<rparr>
     = \<lparr>cursor = Some 18446744073709551613, submitted = [],
        fetched = [(2, 18446744073709551613)]\<rparr>
   \<and> unat (18446744073709551613 :: u64) = 2 ^ 64 - 3
   \<and> (3 :: u64) < 18446744073709551613
   \<and> min (3 :: int) (2 + 1000) - 6 = - 3"
  by (simp add: watchLogShiftOuts_def currentBlockNumber_def lastCheckedBlockNumber_def cache_Get_def
        NewWatcher_def FetchBurnLogs_def fetch_goroutine_def Let_def)

lemma round_head_error: "env_head env = Inl e \<Longrightarrow> watchLogShiftOuts W env s = s"
  by (simp add: watchLogShiftOuts_def currentBlockNumber_def)

lemma round_read_error:
  assumes "env_head env = Inr H" and "snd (lastCheckedBlockNumber env s H) = Inl e"
  shows "watchLogShiftOuts W env s = s"
proof -
  obtain s1 where r: "lastCheckedBlockNumber env s H = (s1, Inl e)"
    using assms(2) by (cases "lastCheckedBlockNumber env s H") simp
  then have "s1 = s" by (rule lastCheckedBlockNumber_error)
  with r assms(1) show ?thesis
    by (simp add: watchLogShiftOuts_def currentBlockNumber_def)
qed

text \<open>
  C5, as stated. The cursor key is absent, the head is 110 and \<open>FilterLogBurn\<close> fails.
  Reading the last checked block initialises the key to 109 before the fetcher is
  called, and the failed round leaves 109 there: the stored cursor has changed, from
  absent to 109.
\<close>

theorem failed_first_round_initialises_cursor_counterexample:
  "cursor \<lparr>cursor = None, submitted = ([] :: (bytes \<times> u64 \<times> bytes \<times> u64) list), fetched = []\<rparr> = None
   \<and> FetchBurnLogs (\<lambda>from to. Inl (Err ''filter failed'')) False 109 104
       = ([], Some (Err ''filter failed''))
   \<and> watchLogShiftOuts
        (NewWatcher (FetchBurnLogs (\<lambda>from to. Inl (Err ''filter failed'')) False)
           (\<lambda>txid amount to nonce. Inr (txid, amount, to, nonce)))
        \<lparr>env_head = Inr 110, env_get_err = None, env_init_err = None, env_set_err = None\<rparr>
        \<lparr>cursor = None, submitted = [], fetched = []\<rparr>
       = \<lparr>cursor = Some 109, submitted = [], fetched = [(109, 104)]\<rparr>"
  by (simp add: watchLogShiftOuts_def currentBlockNumber_def lastCheckedBlockNumber_def cache_Get_def
        NewWatcher_def FetchBurnLogs_def Let_def)

text \<open>
  C5, amended. A round in which the head cannot be read, or the cursor cannot be read,
  changes nothing. A round that read the last checked block \<open>L\<close> and then gets an error
  from the log fetcher, or meets an error result on the channel, ends with \<open>L\<close> as the
  stored cursor: this is the value stored before the round when the key was present,
  and the value \<open>H - 1\<close>, to which the round initialised the key, when it was absent. The
  next round that reads a head beyond \<open>L\<close> asks the fetcher for a range that starts at
  \<open>L\<close> again.
\<close>

theorem failed_round_keeps_cursor:
  "(env_head env = Inl e \<longrightarrow> watchLogShiftOuts W env s = s)
   \<and> (env_head env = Inr H \<and> snd (lastCheckedBlockNumber env s H) = Inl e \<longrightarrow>
        watchLogShiftOuts W env s = s)
   \<and> (env_head env = Inr H \<and> lastCheckedBlockNumber env s H = (s1, Inr L) \<and> L < H
       \<and> (snd (burnLogFetcher W L (min H (L + maxBlockAdvance W) - confidenceInterval W)) \<noteq> None
           \<or> (\<exists>r \<in> set (fst (burnLogFetcher W L (min H (L + maxBlockAdvance W) - confidenceInterval W))).
                 res_Error r \<noteq> None))
      \<longrightarrow> cursor (watchLogShiftOuts W env s) = Some L
          \<and> (cursor s \<noteq> None \<longrightarrow> cursor (watchLogShiftOuts W env s) = cursor s)
          \<and> (cursor s = None \<longrightarrow> cursor (watchLogShiftOuts W env s) = Some (H - 1))
          \<and> (\<forall>env' H'. env_head env' = Inr H' \<and> env_get_err env' = None \<and> L < H' \<longrightarrow>
                fetched (watchLogShiftOuts W env' (watchLogShiftOuts W env s))
                  = fetched (watchLogShiftOuts W env s)
                    @ [(L, min H' (L + maxBlockAdvance W) - confidenceInterval W)]))"
proof (intro conjI impI)
  assume "env_head env = Inl e"
  then show "watchLogShiftOuts W env s = s" by (rule round_head_error)
next
  assume "env_head env = Inr H \<and> snd (lastCheckedBlockNumber env s H) = Inl e"
  then show "watchLogShiftOuts W env s = s" by (simp add: round_read_error)
next
  assume a: "env_head env = Inr H \<and> lastCheckedBlockNumber env s H = (s1, Inr L) \<and> L < H
       \<and> (snd (burnLogFetcher W L (min H (L + maxBlockAdvance W) - confidenceInterval W)) \<noteq> None
           \<or> (\<exists>r \<in> set (fst (burnLogFetcher W L (min H (L + maxBlockAdvance W) - confidenceInterval W))).
                 res_Error r \<noteq> None))"
  then have hd: "env_head env = Inr H" and rd: "lastCheckedBlockNumber env s H = (s1, Inr L)"
    and lt: "L < H"
    and fl: "snd (burnLogFetcher W L (min H (L + maxBlockAdvance W) - confidenceInterval W)) \<noteq> None
           \<or> (\<exists>r \<in> set (fst (burnLogFetcher W L (min H (L + maxBlockAdvance W) - confidenceInterval W))).
                 res_Error r \<noteq> None)"
    by simp_all
  have c: "cursor (watchLogShiftOuts W env s) = Some L"
    using hd rd lt fl by (rule round_cursor_failed)
  then show "cursor (watchLogShiftOuts W env s) = Some L" .
  have v: "cursor s = Some L \<or> cursor s = None \<and> L = H - 1"
    using lastCheckedBlockNumber_value[OF rd] by auto
  with c show "cursor s \<noteq> None \<Longrightarrow> cursor (watchLogShiftOuts W env s) = cursor s"
    by auto
  from v c show "cursor s = None \<Longrightarrow> cursor (watchLogShiftOuts W env s) = Some (H - 1)"
    by auto
  show "\<forall>env' H'. env_head env' = Inr H' \<and> env_get_err env' = None \<and> L < H' \<longrightarrow>
                fetched (watchLogShiftOuts W env' (watchLogShiftOuts W env s))
                  = fetched (watchLogShiftOuts W env s)
                    @ [(L, min H' (L + maxBlockAdvance W) - confidenceInterval W)]"
  proof (intro allI impI)
    fix env' :: round_env and H' :: u64
    assume n: "env_head env' = Inr H' \<and> env_get_err env' = None \<and> L < H'"
    then have "lastCheckedBlockNumber env' (watchLogShiftOuts W env s) H'
                 = (watchLogShiftOuts W env s, Inr L)"
      using c by (simp add: lastCheckedBlockNumber_stored)
    moreover from n have "env_head env' = Inr H'" and "L < H'" by simp_all
    ultimately show "fetched (watchLogShiftOuts W env' (watchLogShiftOuts W env s))
                  = fetched (watchLogShiftOuts W env s)
                    @ [(L, min H' (L + maxBlockAdvance W) - confidenceInterval W)]"
      using round_fetched[of env' H' "watchLogShiftOuts W env s" "watchLogShiftOuts W env s" L W]
      by simp
  qed
qed

theorem failed_round_keeps_cursor_witness:
  "watchLogShiftOuts (NewWatcher (\<lambda>from to. ([], None)) (\<lambda>txid amount to nonce. Inr 0))
      \<lparr>env_head = Inl (Err ''no header''), env_get_err = None, env_init_err = None, env_set_err = None\<rparr>
      \<lparr>cursor = Some 100, submitted = ([] :: nat list), fetched = []\<rparr>
     = \<lparr>cursor = Some 100, submitted = [], fetched = []\<rparr>
   \<and> watchLogShiftOuts (NewWatcher (\<lambda>from to. ([], None)) (\<lambda>txid amount to nonce. Inr 0))
      \<lparr>env_head = Inr 110, env_get_err = Some ''connection refused'', env_init_err = None,
        env_set_err = None\<rparr>
      \<lparr>cursor = Some 100, submitted = ([] :: nat list), fetched = []\<rparr>
     = \<lparr>cursor = Some 100, submitted = [], fetched = []\<rparr>
   \<and> cursor (watchLogShiftOuts
               (NewWatcher (\<lambda>from to. ([], Some (Err ''filter failed''))) (\<lambda>txid amount to nonce. Inr 0))
               \<lparr>env_head = Inr 110, env_get_err = None, env_init_err = None, env_set_err = None\<rparr>
               \<lparr>cursor = Some 100, submitted = ([] :: nat list), fetched = []\<rparr>)
     = Some 100
   \<and> cursor (watchLogShiftOuts
               (NewWatcher (\<lambda>from to. ([\<lparr>res_Result = zero_LogBurn, res_Error = Some (Err ''bad log'')\<rparr>], None))
                  (\<lambda>txid amount to nonce. Inr 0))
               \<lparr>env_head = Inr 110, env_get_err = None, env_init_err = None, env_set_err = None\<rparr>
               \<lparr>cursor = Some 100, submitted = ([] :: nat list), fetched = []\<rparr>)
     = Some 100
   \<and> cursor (watchLogShiftOuts
               (NewWatcher (\<lambda>from to. ([], Some (Err ''filter failed''))) (\<lambda>txid amount to nonce. Inr 0))
               \<lparr>env_head = Inr 110, env_get_err = None, env_init_err = None, env_set_err = None\<rparr>
               \<lparr>cursor = None, submitted = ([] :: nat list), fetched = []\<rparr>)
     = Some 109
   \<and> fetched (watchLogShiftOuts
               (NewWatcher (\<lambda>from to. ([], Some (Err ''filter failed''))) (\<lambda>txid amount to nonce. Inr 0))
               \<lparr>env_head = Inr 110, env_get_err = None, env_init_err = None, env_set_err = None\<rparr>
               (watchLogShiftOuts
                  (NewWatcher (\<lambda>from to. ([], Some (Err ''filter failed''))) (\<lambda>txid amount to nonce. Inr 0))
                  \<lparr>env_head = Inr 110, env_get_err = None, env_init_err = None, env_set_err = None\<rparr>
                  \<lparr>cursor = Some 100, submitted = ([] :: nat list), fetched = []\<rparr>))
     = [(100, 104), (100, 104)]"
proof -
  let ?s = "\<lparr>cursor = Some 100, submitted = ([] :: nat list), fetched = []\<rparr>"
  let ?n = "\<lparr>cursor = None, submitted = ([] :: nat list), fetched = []\<rparr>"
  let ?i = "\<lparr>cursor = Some 109, submitted = ([] :: nat list), fetched = []\<rparr>"
  let ?ok = "\<lparr>env_head = Inr 110, env_get_err = None, env_init_err = None, env_set_err = None\<rparr>"
  let ?Wa = "NewWatcher (\<lambda>from to. ([], None)) (\<lambda>txid amount to nonce. Inr (0 :: nat))"
  let ?Wb = "NewWatcher (\<lambda>from to. ([], Some (Err ''filter failed''))) (\<lambda>txid amount to nonce. Inr (0 :: nat))"
  let ?Wc = "NewWatcher (\<lambda>from to. ([\<lparr>res_Result = zero_LogBurn, res_Error = Some (Err ''bad log'')\<rparr>], None))
                  (\<lambda>txid amount to nonce. Inr (0 :: nat))"
  let ?eh = "\<lparr>env_head = Inl (Err ''no header''), env_get_err = None, env_init_err = None, env_set_err = None\<rparr>"
  let ?eg = "\<lparr>env_head = Inr 110, env_get_err = Some ''connection refused'', env_init_err = None,
        env_set_err = None\<rparr>"
  have r: "lastCheckedBlockNumber ?ok ?s 110 = (?s, Inr 100)"
    by (simp add: lastCheckedBlockNumber_def cache_Get_def)
  have rn: "lastCheckedBlockNumber ?ok ?n 110 = (?i, Inr 109)"
    by (simp add: lastCheckedBlockNumber_def cache_Get_def)
  have a: "watchLogShiftOuts ?Wa ?eh ?s = ?s"
    using failed_round_keeps_cursor[of ?eh "Err ''no header''" ?Wa ?s] by simp
  have b: "watchLogShiftOuts ?Wa ?eg ?s = ?s"
    using failed_round_keeps_cursor[of ?eg "Err ''connection refused''" ?Wa ?s 110]
    by (simp add: lastCheckedBlockNumber_def cache_Get_def)
  have c: "cursor (watchLogShiftOuts ?Wb ?ok ?s) = Some 100"
    using failed_round_keeps_cursor[of ?ok _ ?Wb ?s 110 ?s 100] r
    by (simp add: NewWatcher_def)
  have d: "cursor (watchLogShiftOuts ?Wc ?ok ?s) = Some 100"
    using failed_round_keeps_cursor[of ?ok _ ?Wc ?s 110 ?s 100] r
    by (simp add: NewWatcher_def)
  have e: "cursor (watchLogShiftOuts ?Wb ?ok ?n) = Some 109"
    using failed_round_keeps_cursor[of ?ok _ ?Wb ?n 110 ?i 109] rn
    by (simp add: NewWatcher_def)
  have f0: "fetched (watchLogShiftOuts ?Wb ?ok ?s) = [(100, 104)]"
    using round_fetched[OF _ r, of ?Wb] by (simp add: NewWatcher_def)
  have nx: "\<forall>env' H'. env_head env' = Inr H' \<and> env_get_err env' = None \<and> 100 < H' \<longrightarrow>
              fetched (watchLogShiftOuts ?Wb env' (watchLogShiftOuts ?Wb ?ok ?s))
                = fetched (watchLogShiftOuts ?Wb ?ok ?s)
                  @ [(100, min H' (100 + maxBlockAdvance ?Wb) - confidenceInterval ?Wb)]"
    using failed_round_keeps_cursor[of ?ok _ ?Wb ?s 110 ?s 100] r
    by (simp add: NewWatcher_def)
  have "fetched (watchLogShiftOuts ?Wb ?ok (watchLogShiftOuts ?Wb ?ok ?s))
          = fetched (watchLogShiftOuts ?Wb ?ok ?s)
            @ [(100, min 110 (100 + maxBlockAdvance ?Wb) - confidenceInterval ?Wb)]"
    using nx[rule_format, of ?ok 110] by simp
  then have f: "fetched (watchLogShiftOuts ?Wb ?ok (watchLogShiftOuts ?Wb ?ok ?s)) = [(100, 104), (100, 104)]"
    using f0 by (simp add: NewWatcher_def)
  from a b c d e f show ?thesis by simp
qed

end
